theory Spec2Isabelle
  imports Complex_Main "HOL-Library.Monad_Syntax"
begin

section \<open>Numbers and time\<close>

text \<open>
  A TypeScript \<open>number\<close> is modelled as an exact \<open>real\<close>. The source computes with IEEE
  doubles, which round every result to the nearest double; the model does not round. The two
  agree where every intermediate result is itself a double, as it is for whole numbers of
  milliseconds and of tokens below \<open>2^53\<close> whose quotients are whole or are only floored
  or ceiled. They can differ where a fraction is rounded: with \<open>capacity = 25\<close>,
  \<open>refillRate = 3\<close>, \<open>refillInterval = 60000\<close> the source's \<open>(25 / 3) * 60000\<close> is a
  little above 500000 and its TTL is 1000002, where the exact value is 1000000; and with
  \<open>refillInterval = 1000 / 3\<close> a stored \<open>lastRefill\<close> is a rounded sum. Statements below that
  hold for all numbers are statements of the exact arithmetic; the evaluations at concrete
  inputs use whole numbers, where the source computes the same values.

  Division is the one operation of the source that leaves the finite numbers on finite
  arguments: \<open>a / 0\<close> is \<open>Infinity\<close>, \<open>-Infinity\<close> or \<open>NaN\<close>. \<open>js_div\<close> returns \<open>None\<close>
  there, and every function that divides returns an \<open>option\<close>: \<open>None\<close> says that the source
  goes on with a number that is not finite, which this model does not follow.

  \<open>Date.now()\<close> is an input: every operation takes the clock reading \<open>now\<close>, one reading for
  the operation and the store calls it makes.
\<close>

definition js_div :: "real \<Rightarrow> real \<Rightarrow> real option" where
  "js_div a b = (if b = 0 then None else Some (a / b))"

section \<open>Data model (src/storage/types.ts, src/algorithms/types.ts)\<close>

record BucketState =
  tokens :: real
  lastRefill :: real

record RateLimitResult =
  allowed :: bool
  remaining :: int
  resetAt :: real
  retryAfter :: "int option"

record RateLimiterOptions =
  capacity :: real
  refillRate :: real
  refillInterval :: real

text \<open>
  The interface \<open>StorageAdapter\<close>: an object with the methods \<open>get\<close>, \<open>set\<close> and \<open>delete\<close>.
  The object's own state has the type \<open>'s\<close> and is passed explicitly; each method takes the
  clock reading of the call (an adapter is free to ignore it) and returns the new state.
  Arguments are in the source's order, then the clock, then the state.
\<close>

record 's StorageAdapter =
  adapter_get :: "string \<Rightarrow> real \<Rightarrow> 's \<Rightarrow> BucketState option \<times> 's"
  adapter_set :: "string \<Rightarrow> BucketState \<Rightarrow> real \<Rightarrow> real \<Rightarrow> 's \<Rightarrow> 's"
  adapter_delete :: "string \<Rightarrow> 's \<Rightarrow> 's"

section \<open>The in-memory store (class MemoryStorage)\<close>

record StoredEntry =
  state :: BucketState
  expiresAt :: real

text \<open>The table \<open>store\<close> of the class; the cleanup timer is not part of the model.\<close>

record MemoryStorage =
  store :: "string \<rightharpoonup> StoredEntry"

definition MemoryStorage_new :: MemoryStorage where
  "MemoryStorage_new = \<lparr>store = Map.empty\<rparr>"

definition MemoryStorage_get :: "string \<Rightarrow> real \<Rightarrow> MemoryStorage \<Rightarrow> BucketState option \<times> MemoryStorage" where
  "MemoryStorage_get key now m =
     (case store m key of
        None \<Rightarrow> (None, m)
      | Some entry \<Rightarrow>
          if expiresAt entry \<le> now
          then (None, m\<lparr>store := (store m)(key := None)\<rparr>)
          else (Some (state entry), m))"

definition MemoryStorage_set :: "string \<Rightarrow> BucketState \<Rightarrow> real \<Rightarrow> real \<Rightarrow> MemoryStorage \<Rightarrow> MemoryStorage" where
  "MemoryStorage_set key st ttl now m =
     m\<lparr>store := (store m)(key \<mapsto> \<lparr>state = st, expiresAt = now + ttl\<rparr>)\<rparr>"

definition MemoryStorage_delete :: "string \<Rightarrow> MemoryStorage \<Rightarrow> MemoryStorage" where
  "MemoryStorage_delete key m = m\<lparr>store := (store m)(key := None)\<rparr>"

definition MemoryStorage_adapter :: "MemoryStorage StorageAdapter" where
  "MemoryStorage_adapter =
     \<lparr>adapter_get = MemoryStorage_get,
      adapter_set = MemoryStorage_set,
      adapter_delete = MemoryStorage_delete\<rparr>"

section \<open>A recording adapter\<close>

text \<open>
  To speak about the calls that the engine makes on its storage, any adapter can be wrapped
  into one that forwards every call and appends it to a log, as a spy in a test would.
\<close>

datatype StoreCall =
    GetCall string
  | SetCall string BucketState real
  | DeleteCall string

definition recording :: "'s StorageAdapter \<Rightarrow> ('s \<times> StoreCall list) StorageAdapter" where
  "recording ad =
     \<lparr>adapter_get = (\<lambda>key now sl.
        (fst (adapter_get ad key now (fst sl)),
         (snd (adapter_get ad key now (fst sl)), snd sl @ [GetCall key]))),
      adapter_set = (\<lambda>key st ttl now sl.
        (adapter_set ad key st ttl now (fst sl), snd sl @ [SetCall key st ttl])),
      adapter_delete = (\<lambda>key sl.
        (adapter_delete ad key (fst sl), snd sl @ [DeleteCall key]))\<rparr>"

section \<open>The token bucket (class TokenBucket)\<close>

text \<open>
  The fields of the class: the three options and the derived \<open>ttlMs\<close>. The field \<open>storage\<close>
  is the adapter and its state, which the operations below take as arguments.
  No constructor of the source contains a \<open>throw\<close>; the result type of the constructors has
  an error summand all the same, so that a rejected configuration could be told from an
  accepted one.
\<close>

datatype error = ConfigurationError

record TokenBucket = RateLimiterOptions +
  ttlMs :: "real option"

definition TokenBucket_new :: "RateLimiterOptions \<Rightarrow> error + TokenBucket" where
  "TokenBucket_new options =
     Inr \<lparr>capacity = capacity options,
          refillRate = refillRate options,
          refillInterval = refillInterval options,
          ttlMs = do {
            q \<leftarrow> js_div (capacity options) (refillRate options);
            Some (of_int \<lceil>q * refillInterval options\<rceil> * 2)
          }\<rparr>"

definition calculateTokens :: "TokenBucket \<Rightarrow> BucketState \<Rightarrow> real \<Rightarrow> real option" where
  "calculateTokens tb st now = do {
     let elapsed = now - lastRefill st;
     q \<leftarrow> js_div elapsed (refillInterval tb);
     let intervalsElapsed = \<lfloor>q\<rfloor>;
     let tokensToAdd = of_int intervalsElapsed * refillRate tb;
     Some (min (capacity tb) (tokens st + tokensToAdd))
   }"

definition calculateLastRefill :: "TokenBucket \<Rightarrow> BucketState \<Rightarrow> real \<Rightarrow> real option" where
  "calculateLastRefill tb st now = do {
     let elapsed = now - lastRefill st;
     q \<leftarrow> js_div elapsed (refillInterval tb);
     let intervalsElapsed = \<lfloor>q\<rfloor>;
     Some (lastRefill st + of_int intervalsElapsed * refillInterval tb)
   }"

definition calculateResetAt :: "TokenBucket \<Rightarrow> real \<Rightarrow> real \<Rightarrow> real option" where
  "calculateResetAt tb tokens' lastRefill' =
     (if tokens' \<ge> capacity tb then Some lastRefill'
      else do {
        let tokensNeeded = capacity tb - tokens';
        q \<leftarrow> js_div tokensNeeded (refillRate tb);
        let intervalsNeeded = \<lceil>q\<rceil>;
        Some (lastRefill' + of_int intervalsNeeded * refillInterval tb)
      })"

definition calculateRetryAfter :: "TokenBucket \<Rightarrow> real \<Rightarrow> real \<Rightarrow> int" where
  "calculateRetryAfter tb lastRefill' now =
     (let nextRefill = lastRefill' + refillInterval tb
      in max 0 \<lceil>(nextRefill - now) / 1000\<rceil>)"

definition getOrCreateState :: "TokenBucket \<Rightarrow> 's StorageAdapter \<Rightarrow> string \<Rightarrow> real \<Rightarrow> 's \<Rightarrow> BucketState \<times> 's" where
  "getOrCreateState tb ad key now s =
     (case adapter_get ad key now s of
        (Some existing, s') \<Rightarrow> (existing, s')
      | (None, s') \<Rightarrow> (\<lparr>tokens = capacity tb, lastRefill = now\<rparr>, s'))"

definition buildResult :: "TokenBucket \<Rightarrow> bool \<Rightarrow> real \<Rightarrow> real \<Rightarrow> real \<Rightarrow> RateLimitResult option" where
  "buildResult tb allowed' tokens' lastRefill' now = do {
     r \<leftarrow> calculateResetAt tb tokens' lastRefill';
     Some \<lparr>allowed = allowed',
           remaining = \<lfloor>tokens'\<rfloor>,
           resetAt = r,
           retryAfter = (if \<not> allowed' then Some (calculateRetryAfter tb lastRefill' now) else None)\<rparr>
   }"

definition check :: "TokenBucket \<Rightarrow> 's StorageAdapter \<Rightarrow> string \<Rightarrow> real \<Rightarrow> 's \<Rightarrow> (RateLimitResult \<times> 's) option" where
  "check tb ad key now s =
     (case getOrCreateState tb ad key now s of (st, s') \<Rightarrow> do {
        tokens' \<leftarrow> calculateTokens tb st now;
        lastRefill' \<leftarrow> calculateLastRefill tb st now;
        r \<leftarrow> buildResult tb (tokens' \<ge> 1) tokens' lastRefill' now;
        Some (r, s')
      })"

text \<open>
  \<open>consume(key, tokens = 1)\<close>: the optional argument is an \<open>option\<close>, \<open>None\<close> for a call
  that leaves it out.
\<close>

definition consume :: "TokenBucket \<Rightarrow> 's StorageAdapter \<Rightarrow> string \<Rightarrow> real option \<Rightarrow> real \<Rightarrow> 's \<Rightarrow> (RateLimitResult \<times> 's) option" where
  "consume tb ad key tokens_arg now s =
     (case getOrCreateState tb ad key now s of (st, s') \<Rightarrow> do {
        let n = (case tokens_arg of None \<Rightarrow> 1 | Some t \<Rightarrow> t);
        currentTokens \<leftarrow> calculateTokens tb st now;
        lastRefill' \<leftarrow> calculateLastRefill tb st now;
        if currentTokens < n
        then do {
          r \<leftarrow> buildResult tb False currentTokens lastRefill' now;
          Some (r, s')
        }
        else do {
          let newTokens = currentTokens - n;
          ttl \<leftarrow> ttlMs tb;
          let s'' = adapter_set ad key \<lparr>tokens = newTokens, lastRefill = lastRefill'\<rparr> ttl now s';
          r \<leftarrow> buildResult tb True newTokens lastRefill' now;
          Some (r, s'')
        }
      })"

section \<open>The facade (class RateLimiter)\<close>

text \<open>
  \<open>RateLimiterConfig\<close> extends the options with an optional storage. The constructor picks
  the storage (the given one, or a new \<open>MemoryStorage\<close> that it then owns) and builds the
  \<open>TokenBucket\<close> from the three options as they are. The storage object itself is the
  adapter and state that the operations take as arguments; \<open>check\<close> and \<open>consume\<close> of the
  facade only call those of the algorithm, which are modelled above.
\<close>

record 's RateLimiterConfig = RateLimiterOptions +
  storage :: "'s StorageAdapter option"

record RateLimiter =
  algorithm :: TokenBucket
  ownsStorage :: bool

definition RateLimiter_new :: "'s RateLimiterConfig \<Rightarrow> error + RateLimiter" where
  "RateLimiter_new config =
     (let owns = (case storage config of Some given \<Rightarrow> False | None \<Rightarrow> True)
      in case TokenBucket_new \<lparr>capacity = capacity config,
                               refillRate = refillRate config,
                               refillInterval = refillInterval config\<rparr> of
           Inl e \<Rightarrow> Inl e
         | Inr tb \<Rightarrow> Inr \<lparr>algorithm = tb, ownsStorage = owns\<rparr>)"

section \<open>Sequences of calls\<close>

text \<open>
  A caller's calls on one limiter, each with the clock reading at which it is made, run one
  after the other on the same storage.
\<close>

datatype Op =
    Check string
  | Consume string "real option"

fun step :: "TokenBucket \<Rightarrow> 's StorageAdapter \<Rightarrow> real \<times> Op \<Rightarrow> 's \<Rightarrow> (RateLimitResult \<times> 's) option" where
  "step tb ad (now, Check key) s = check tb ad key now s"
| "step tb ad (now, Consume key tokens_arg) s = consume tb ad key tokens_arg now s"

fun run :: "TokenBucket \<Rightarrow> 's StorageAdapter \<Rightarrow> (real \<times> Op) list \<Rightarrow> 's \<Rightarrow> (RateLimitResult list \<times> 's) option" where
  "run tb ad [] s = Some ([], s)"
| "run tb ad (c # cs) s =
     (case step tb ad c s of
        None \<Rightarrow> None
      | Some (r, s') \<Rightarrow>
          (case run tb ad cs s' of
             None \<Rightarrow> None
           | Some (rs, s'') \<Rightarrow> Some (r # rs, s'')))"

section \<open>Predicates of the specification\<close>

text \<open>
  The data model of the specification takes \<open>capacity\<close>, \<open>refillRate\<close> and \<open>refillInterval\<close>
  to be positive.
\<close>

definition valid_options :: "'a RateLimiterOptions_scheme \<Rightarrow> bool" where
  "valid_options options \<longleftrightarrow>
     0 < capacity options \<and> 0 < refillRate options \<and> 0 < refillInterval options"

text \<open>The TTL in the specification's words: \<open>2 \<times> ceil(capacity / refillRate) \<times> refillInterval\<close>.\<close>

definition spec_ttl :: "RateLimiterOptions \<Rightarrow> real" where
  "spec_ttl options =
     2 * of_int \<lceil>capacity options / refillRate options\<rceil> * refillInterval options"

text \<open>What a logged call must satisfy: a write stores a token count between \<open>0\<close> and \<open>c\<close>;
  and what a call must satisfy: the requested amount is not negative.\<close>

fun write_in_range :: "real \<Rightarrow> StoreCall \<Rightarrow> bool" where
  "write_in_range c (SetCall key st ttl) = (0 \<le> tokens st \<and> tokens st \<le> c)"
| "write_in_range c (GetCall key) = True"
| "write_in_range c (DeleteCall key) = True"

fun amount_nonneg :: "real \<times> Op \<Rightarrow> bool" where
  "amount_nonneg (now, Check key) = True"
| "amount_nonneg (now, Consume key None) = True"
| "amount_nonneg (now, Consume key (Some n)) = (0 \<le> n)"

text \<open>The configuration of the specification's examples, and the bucket built from it.\<close>

definition example_options :: RateLimiterOptions where
  "example_options = \<lparr>capacity = 5, refillRate = 1, refillInterval = 1000\<rparr>"

definition example_bucket :: TokenBucket where
  "example_bucket = \<lparr>capacity = 5, refillRate = 1, refillInterval = 1000, ttlMs = Some 10000\<rparr>"

section \<open>Basic facts\<close>

lemma js_div_Some: "b \<noteq> 0 \<Longrightarrow> js_div a b = Some (a / b)"
  by (simp add: js_div_def)

lemma calculateTokens_Some:
  "refillInterval tb \<noteq> 0 \<Longrightarrow>
   calculateTokens tb st now =
     Some (min (capacity tb)
            (tokens st + of_int \<lfloor>(now - lastRefill st) / refillInterval tb\<rfloor> * refillRate tb))"
  by (simp add: calculateTokens_def js_div_Some)

lemma calculateLastRefill_Some:
  "refillInterval tb \<noteq> 0 \<Longrightarrow>
   calculateLastRefill tb st now =
     Some (lastRefill st + of_int \<lfloor>(now - lastRefill st) / refillInterval tb\<rfloor> * refillInterval tb)"
  by (simp add: calculateLastRefill_def js_div_Some)

lemma calculateResetAt_defined:
  "refillRate tb \<noteq> 0 \<Longrightarrow> \<exists>r. calculateResetAt tb t l = Some r"
  by (simp add: calculateResetAt_def js_div_Some)

lemma buildResult_Some:
  "refillRate tb \<noteq> 0 \<Longrightarrow>
   \<exists>r. buildResult tb a t l now =
     Some \<lparr>allowed = a, remaining = \<lfloor>t\<rfloor>, resetAt = r,
           retryAfter = (if \<not> a then Some (calculateRetryAfter tb l now) else None)\<rparr>
     \<and> calculateResetAt tb t l = Some r"
  using calculateResetAt_defined[of tb t l] by (auto simp: buildResult_def)

lemma getOrCreateState_snd:
  "snd (getOrCreateState tb ad key now s) = snd (adapter_get ad key now s)"
  by (simp add: getOrCreateState_def split: prod.splits option.splits)

lemma getOrCreateState_fst:
  "fst (getOrCreateState tb ad key now s) =
     (case fst (adapter_get ad key now s) of
        Some existing \<Rightarrow> existing
      | None \<Rightarrow> \<lparr>tokens = capacity tb, lastRefill = now\<rparr>)"
  by (simp add: getOrCreateState_def split: prod.splits option.splits)

lemma getOrCreateState_recording:
  "getOrCreateState tb (recording ad) key now (s, lg) =
     (fst (getOrCreateState tb ad key now s),
      (snd (getOrCreateState tb ad key now s), lg @ [GetCall key]))"
  by (simp add: getOrCreateState_def recording_def split: prod.splits option.splits)

lemma TokenBucket_new_fields:
  assumes "TokenBucket_new opts = Inr tb"
  shows "capacity tb = capacity opts" "refillRate tb = refillRate opts"
    "refillInterval tb = refillInterval opts"
    "refillRate opts \<noteq> 0 \<Longrightarrow>
       ttlMs tb = Some (of_int \<lceil>capacity opts / refillRate opts * refillInterval opts\<rceil> * 2)"
  using assms by (auto simp: TokenBucket_new_def js_div_Some)

lemma check_Some:
  assumes i: "refillInterval tb \<noteq> 0" and r: "refillRate tb \<noteq> 0"
    and t: "calculateTokens tb (fst (getOrCreateState tb ad key now s)) now = Some t"
    and l: "calculateLastRefill tb (fst (getOrCreateState tb ad key now s)) now = Some l"
  shows "\<exists>x. check tb ad key now s =
           Some (\<lparr>allowed = (1 \<le> t), remaining = \<lfloor>t\<rfloor>, resetAt = x,
                  retryAfter = (if 1 \<le> t then None else Some (calculateRetryAfter tb l now))\<rparr>,
                 snd (adapter_get ad key now s))
         \<and> calculateResetAt tb t l = Some x"
proof -
  obtain x where x: "buildResult tb (1 \<le> t) t l now =
     Some \<lparr>allowed = (1 \<le> t), remaining = \<lfloor>t\<rfloor>, resetAt = x,
           retryAfter = (if \<not> (1 \<le> t) then Some (calculateRetryAfter tb l now) else None)\<rparr>"
    and x': "calculateResetAt tb t l = Some x"
    using buildResult_Some[OF r, of "1 \<le> t" t l now] by blast
  obtain st s' where g: "getOrCreateState tb ad key now s = (st, s')" by (cases "getOrCreateState tb ad key now s")
  have s': "s' = snd (adapter_get ad key now s)" using g getOrCreateState_snd[of tb ad key now s] by simp
  have "check tb ad key now s = Some (\<lparr>allowed = (1 \<le> t), remaining = \<lfloor>t\<rfloor>, resetAt = x,
                  retryAfter = (if 1 \<le> t then None else Some (calculateRetryAfter tb l now))\<rparr>,
                 snd (adapter_get ad key now s))"
    using t l x g s' by (simp add: check_def)
  then show ?thesis using x' by blast
qed

lemma consume_reject:
  assumes r: "refillRate tb \<noteq> 0"
    and t: "calculateTokens tb (fst (getOrCreateState tb ad key now s)) now = Some t"
    and l: "calculateLastRefill tb (fst (getOrCreateState tb ad key now s)) now = Some l"
    and n: "n = (case tokens_arg of None \<Rightarrow> 1 | Some a \<Rightarrow> a)"
    and lt: "t < n"
  shows "\<exists>x. consume tb ad key tokens_arg now s =
           Some (\<lparr>allowed = False, remaining = \<lfloor>t\<rfloor>, resetAt = x,
                  retryAfter = Some (calculateRetryAfter tb l now)\<rparr>,
                 snd (adapter_get ad key now s))
         \<and> calculateResetAt tb t l = Some x"
proof -
  obtain st s' where g: "getOrCreateState tb ad key now s = (st, s')"
    by (cases "getOrCreateState tb ad key now s")
  have s': "s' = snd (adapter_get ad key now s)"
    using g getOrCreateState_snd[of tb ad key now s] by simp
  obtain x where x: "buildResult tb False t l now =
     Some \<lparr>allowed = False, remaining = \<lfloor>t\<rfloor>, resetAt = x,
           retryAfter = Some (calculateRetryAfter tb l now)\<rparr>"
    and x': "calculateResetAt tb t l = Some x"
    using buildResult_Some[OF r, of False t l now] by auto
  have "consume tb ad key tokens_arg now s =
          Some (\<lparr>allowed = False, remaining = \<lfloor>t\<rfloor>, resetAt = x,
                 retryAfter = Some (calculateRetryAfter tb l now)\<rparr>,
                snd (adapter_get ad key now s))"
    using t l x g s' lt n by (simp add: consume_def)
  then show ?thesis using x' by blast
qed

lemma consume_admit:
  assumes r: "refillRate tb \<noteq> 0"
    and t: "calculateTokens tb (fst (getOrCreateState tb ad key now s)) now = Some t"
    and l: "calculateLastRefill tb (fst (getOrCreateState tb ad key now s)) now = Some l"
    and n: "n = (case tokens_arg of None \<Rightarrow> 1 | Some a \<Rightarrow> a)"
    and ttl: "ttlMs tb = Some ttl"
    and ge: "\<not> t < n"
  shows "\<exists>x. consume tb ad key tokens_arg now s =
           Some (\<lparr>allowed = True, remaining = \<lfloor>t - n\<rfloor>, resetAt = x, retryAfter = None\<rparr>,
                 adapter_set ad key \<lparr>tokens = t - n, lastRefill = l\<rparr> ttl now
                   (snd (adapter_get ad key now s)))
         \<and> calculateResetAt tb (t - n) l = Some x"
proof -
  obtain st s' where g: "getOrCreateState tb ad key now s = (st, s')"
    by (cases "getOrCreateState tb ad key now s")
  have s': "s' = snd (adapter_get ad key now s)"
    using g getOrCreateState_snd[of tb ad key now s] by simp
  obtain x where x: "buildResult tb True (t - n) l now =
     Some \<lparr>allowed = True, remaining = \<lfloor>t - n\<rfloor>, resetAt = x, retryAfter = None\<rparr>"
    and x': "calculateResetAt tb (t - n) l = Some x"
    using buildResult_Some[OF r, of True "t - n" l now] by auto
  have "consume tb ad key tokens_arg now s =
          Some (\<lparr>allowed = True, remaining = \<lfloor>t - n\<rfloor>, resetAt = x, retryAfter = None\<rparr>,
                adapter_set ad key \<lparr>tokens = t - n, lastRefill = l\<rparr> ttl now
                  (snd (adapter_get ad key now s)))"
    using t l x g s' ge n ttl by (simp add: consume_def Let_def)
  then show ?thesis using x' by blast
qed

lemma floor_div_partial:
  fixes e i :: real
  assumes "0 < i" "0 \<le> e" "e < i"
  shows "\<lfloor>e / i\<rfloor> = 0"
  using assms by (simp add: floor_eq_iff)

lemma floor_div_bracket:
  fixes e i :: real
  assumes "0 < i"
  shows "of_int \<lfloor>e / i\<rfloor> * i \<le> e" and "e < (of_int \<lfloor>e / i\<rfloor> + 1) * i"
proof -
  have "of_int \<lfloor>e / i\<rfloor> \<le> e / i" by (rule of_int_floor_le)
  then show "of_int \<lfloor>e / i\<rfloor> * i \<le> e" using assms by (simp add: le_divide_eq)
  have "e / i < of_int \<lfloor>e / i\<rfloor> + 1" by linarith
  then show "e < (of_int \<lfloor>e / i\<rfloor> + 1) * i"
    using pos_divide_less_eq[OF assms, of e "of_int \<lfloor>e / i\<rfloor> + 1"] by blast
qed

lemma recording_get:
  "adapter_get (recording ad) key now (s, lg) =
     (fst (adapter_get ad key now s), (snd (adapter_get ad key now s), lg @ [GetCall key]))"
  by (simp add: recording_def)

lemma recording_set:
  "adapter_set (recording ad) key st ttl now (s, lg) =
     (adapter_set ad key st ttl now s, lg @ [SetCall key st ttl])"
  by (simp add: recording_def)

lemma getOrCreateState_recording_fst:
  "fst (getOrCreateState tb (recording ad) key now (s, lg)) = fst (getOrCreateState tb ad key now s)"
  by (simp add: getOrCreateState_recording)

lemma valid_optionsD:
  "valid_options tb \<Longrightarrow> 0 < capacity tb"
  "valid_options tb \<Longrightarrow> 0 < refillRate tb"
  "valid_options tb \<Longrightarrow> 0 < refillInterval tb"
  "valid_options tb \<Longrightarrow> refillRate tb \<noteq> 0"
  "valid_options tb \<Longrightarrow> refillInterval tb \<noteq> 0"
  by (simp_all add: valid_options_def)

lemma valid_bucket:
  assumes "valid_options opts" "TokenBucket_new opts = Inr tb"
  shows "valid_options tb" and "\<exists>ttl. ttlMs tb = Some ttl"
  using assms TokenBucket_new_fields[OF assms(2)] by (simp_all add: valid_options_def)

lemma MemoryStorage_get_idem:
  "MemoryStorage_get key now (snd (MemoryStorage_get key now m))
     = (fst (MemoryStorage_get key now m), snd (MemoryStorage_get key now m))"
  by (auto simp: MemoryStorage_get_def split: option.splits)

lemma check_defined:
  assumes v: "valid_options tb"
  shows "\<exists>r. check tb ad key now s = Some (r, snd (adapter_get ad key now s))"
proof -
  have r: "refillRate tb \<noteq> 0" and i: "refillInterval tb \<noteq> 0" using v by (simp_all add: valid_optionsD)
  show ?thesis
    using check_Some[OF i r calculateTokens_Some[OF i] calculateLastRefill_Some[OF i], of ad key now s]
    by blast
qed

lemma repeated_check_MemoryStorage:
  assumes c: "check tb MemoryStorage_adapter key now m = Some (r, m')"
    and m': "m' = snd (MemoryStorage_get key now m)"
  shows "run tb MemoryStorage_adapter (replicate (Suc n) (now, Check key)) m
           = Some (replicate (Suc n) r, m')"
proof -
  have again: "check tb MemoryStorage_adapter key now m' = Some (r, m')"
  proof -
    have "adapter_get MemoryStorage_adapter key now m' = (fst (MemoryStorage_get key now m), m')"
      using MemoryStorage_get_idem[of key now m] m' by (simp add: MemoryStorage_adapter_def)
    moreover have "check tb MemoryStorage_adapter key now m =
        (case getOrCreateState tb MemoryStorage_adapter key now m of (st, s') \<Rightarrow>
           map_option (\<lambda>x. (fst x, s')) (check tb MemoryStorage_adapter key now m))"
      by (auto simp: check_def split: prod.splits Option.bind_splits)
    ultimately show ?thesis
      using c m' 
      by (auto simp: check_def getOrCreateState_def MemoryStorage_adapter_def 
          split: prod.splits option.splits Option.bind_splits)
  qed
  have rep: "run tb MemoryStorage_adapter (replicate k (now, Check key)) m' = Some (replicate k r, m')" for k
    by (induction k) (simp_all add: again)
  show ?thesis using c rep[of n] by simp
qed

lemma calculateTokens_le_capacity:
  "calculateTokens tb st now = Some t \<Longrightarrow> t \<le> capacity tb"
  by (auto simp: calculateTokens_def js_div_def Let_def split: if_splits)

lemma consume_recording:
  assumes r: "refillRate tb \<noteq> 0"
    and t: "calculateTokens tb (fst (getOrCreateState tb ad key now s)) now = Some t"
    and l: "calculateLastRefill tb (fst (getOrCreateState tb ad key now s)) now = Some l"
    and n: "n = (case tokens_arg of None \<Rightarrow> 1 | Some a \<Rightarrow> a)"
    and ttl: "ttlMs tb = Some ttl"
  shows "\<exists>res s'. consume tb (recording ad) key tokens_arg now (s, lg) =
           Some (res, (s', lg @ (if t < n then [GetCall key]
                                 else [GetCall key, SetCall key \<lparr>tokens = t - n, lastRefill = l\<rparr> ttl])))
         \<and> allowed res = (\<not> t < n)"
proof -
  have t': "calculateTokens tb (fst (getOrCreateState tb (recording ad) key now (s, lg))) now = Some t"
    and l': "calculateLastRefill tb (fst (getOrCreateState tb (recording ad) key now (s, lg))) now = Some l"
    using t l by (simp_all add: getOrCreateState_recording_fst)
  show ?thesis
  proof (cases "t < n")
    case True
    show ?thesis
      using consume_reject[OF r t' l' n True] True by (auto simp: recording_get)
  next
    case False
    show ?thesis
      using consume_admit[OF r t' l' n ttl False] False by (auto simp: recording_get recording_set)
  qed
qed

lemma step_recording_calls:
  assumes v: "valid_options opts" and new: "TokenBucket_new opts = Inr tb"
  shows "\<exists>r s' calls. step tb (recording ad) c (s, lg) = Some (r, (s', lg @ calls))
           \<and> (amount_nonneg c \<longrightarrow> list_all (write_in_range (capacity opts)) calls)"
proof -
  have vb: "valid_options tb" using valid_bucket(1)[OF v new] .
  have r: "refillRate tb \<noteq> 0" and i: "refillInterval tb \<noteq> 0"
    using vb by (simp_all add: valid_optionsD)
  obtain ttl where ttl: "ttlMs tb = Some ttl" using valid_bucket(2)[OF v new] by blast
  have cap: "capacity tb = capacity opts" using TokenBucket_new_fields(1)[OF new] .
  obtain now op where c: "c = (now, op)" by (cases c)
  show ?thesis
  proof (cases op)
    case (Check key)
    obtain res where "check tb (recording ad) key now (s, lg)
        = Some (res, snd (adapter_get (recording ad) key now (s, lg)))"
      using check_defined[OF vb, of "recording ad" key now "(s, lg)"] by blast
    then have "step tb (recording ad) c (s, lg)
        = Some (res, (snd (adapter_get ad key now s), lg @ [GetCall key]))"
      using c Check by (simp add: recording_get)
    then show ?thesis by fastforce
  next
    case (Consume key tokens_arg)
    let ?st = "fst (getOrCreateState tb ad key now s)"
    define n where "n = (case tokens_arg of None \<Rightarrow> 1 | Some a \<Rightarrow> a)"
    obtain t where t: "calculateTokens tb ?st now = Some t"
      using calculateTokens_Some[OF i] by blast
    obtain l where l: "calculateLastRefill tb ?st now = Some l"
      using calculateLastRefill_Some[OF i] by blast
    have tcap: "t \<le> capacity opts" using calculateTokens_le_capacity[OF t] cap by simp
    have nn: "amount_nonneg c \<longrightarrow> 0 \<le> n"
      using c Consume by (cases tokens_arg) (simp_all add: n_def)
    obtain res s' where
      "consume tb (recording ad) key tokens_arg now (s, lg) =
           Some (res, (s', lg @ (if t < n then [GetCall key]
                 else [GetCall key, SetCall key \<lparr>tokens = t - n, lastRefill = l\<rparr> ttl])))"
      using consume_recording[OF r t l n_def ttl, of lg] by blast
    then have "step tb (recording ad) c (s, lg) =
           Some (res, (s', lg @ (if t < n then [GetCall key]
                 else [GetCall key, SetCall key \<lparr>tokens = t - n, lastRefill = l\<rparr> ttl])))"
      using c Consume by simp
    moreover have "amount_nonneg c \<longrightarrow> list_all (write_in_range (capacity opts))
        (if t < n then [GetCall key]
                 else [GetCall key, SetCall key \<lparr>tokens = t - n, lastRefill = l\<rparr> ttl])"
      using nn tcap by auto
    ultimately show ?thesis by blast
  qed
qed

lemma run_recording_all:
  assumes st: "\<And>c s lg. Q c \<Longrightarrow>
      \<exists>r s' calls. step tb (recording ad) c (s, lg) = Some (r, (s', lg @ calls)) \<and> list_all P calls"
    and q: "list_all Q ops" and p: "list_all P lg"
  shows "\<exists>rs s' lg'. run tb (recording ad) ops (s, lg) = Some (rs, (s', lg')) \<and> list_all P lg'"
  using q p
proof (induction ops arbitrary: s lg)
  case Nil
  then show ?case by simp
next
  case (Cons c cs)
  from Cons.prems have qc: "Q c" and qcs: "list_all Q cs" by simp_all
  obtain r s1 calls where 1: "step tb (recording ad) c (s, lg) = Some (r, (s1, lg @ calls))"
    and 2: "list_all P calls"
    using st[OF qc, of s lg] by blast
  have "list_all P (lg @ calls)" using Cons.prems(2) 2 by simp
  then obtain rs s' lg' where 3: "run tb (recording ad) cs (s1, lg @ calls) = Some (rs, (s', lg'))"
    and 4: "list_all P lg'"
    using Cons.IH[OF qcs, of "lg @ calls" s1] by blast
  have "run tb (recording ad) (c # cs) (s, lg) = Some (r # rs, (s', lg'))"
    using 1 3 by simp
  then show ?case using 4 by blast
qed

lemma consume_allowed:
  assumes r: "refillRate tb \<noteq> 0"
    and t: "calculateTokens tb (fst (getOrCreateState tb ad key now s)) now = Some t"
    and l: "calculateLastRefill tb (fst (getOrCreateState tb ad key now s)) now = Some l"
    and n: "n = (case tokens_arg of None \<Rightarrow> 1 | Some a \<Rightarrow> a)"
    and ttl: "ttlMs tb = Some ttl"
  shows "\<exists>res s'. consume tb ad key tokens_arg now s = Some (res, s') \<and> allowed res = (\<not> t < n)"
proof (cases "t < n")
  case True
  show ?thesis using consume_reject[OF r t l n True] True by auto
next
  case False
  show ?thesis using consume_admit[OF r t l n ttl False] False by auto
qed

lemma floor_minus_one_real: "\<lfloor>- 1 :: real\<rfloor> = - 1"
  by (simp add: floor_eq_iff)

lemma ceiling_half_real: "\<lceil>1 / 2 :: real\<rceil> = 1"
  by (simp add: ceiling_eq_iff)

lemma ceiling_quarter_real: "\<lceil>1 / 4 :: real\<rceil> = 1"
  by (simp add: ceiling_eq_iff)

text \<open>The equations that evaluate the model on concrete inputs.\<close>

lemmas evaluate = floor_minus_one_real ceiling_half_real ceiling_quarter_real
  valid_options_def example_bucket_def example_options_def TokenBucket_new_def
  MemoryStorage_new_def consume_def check_def getOrCreateState_def
  MemoryStorage_adapter_def MemoryStorage_get_def MemoryStorage_set_def
  calculateTokens_def calculateLastRefill_def buildResult_def
  calculateResetAt_def calculateRetryAfter_def js_div_def Let_def recording_def

section \<open>The refill computation\<close>

text \<open>
  C1. For a bucket with a positive refill interval, a stored state and a time \<open>now\<close> not
  before the state's \<open>lastRefill\<close>, the engine computes
  \<open>tokens(now) = min(capacity, tokens + floor((now - lastRefill) / refillInterval) * refillRate)\<close>
  and \<open>lastRefill(now) = lastRefill + floor((now - lastRefill) / refillInterval) * refillInterval\<close>.
  A partial interval grants nothing and leaves \<open>lastRefill\<close> where it was; in general
  \<open>lastRefill\<close> moves by a whole number \<open>k\<close> of intervals, the number of whole intervals
  that fit between the stored \<open>lastRefill\<close> and \<open>now\<close>, and \<open>k\<close> times the rate is granted.
\<close>

theorem refill_computation:
  assumes pos: "0 < refillInterval tb" and le: "lastRefill st \<le> now"
  shows "calculateTokens tb st now =
           Some (min (capacity tb)
                  (tokens st + of_int \<lfloor>(now - lastRefill st) / refillInterval tb\<rfloor> * refillRate tb))
       \<and> calculateLastRefill tb st now =
           Some (lastRefill st + of_int \<lfloor>(now - lastRefill st) / refillInterval tb\<rfloor> * refillInterval tb)
       \<and> (now - lastRefill st < refillInterval tb \<longrightarrow>
            calculateTokens tb st now = Some (min (capacity tb) (tokens st))
          \<and> calculateLastRefill tb st now = Some (lastRefill st))
       \<and> (\<exists>k::nat.
            calculateTokens tb st now = Some (min (capacity tb) (tokens st + of_nat k * refillRate tb))
          \<and> calculateLastRefill tb st now = Some (lastRefill st + of_nat k * refillInterval tb)
          \<and> lastRefill st + of_nat k * refillInterval tb \<le> now
          \<and> now < lastRefill st + of_nat (k + 1) * refillInterval tb)"
proof -
  let ?e = "now - lastRefill st"
  let ?i = "refillInterval tb"
  let ?q = "\<lfloor>?e / ?i\<rfloor>"
  have ne: "?i \<noteq> 0" using pos by simp
  have T: "calculateTokens tb st now = Some (min (capacity tb) (tokens st + of_int ?q * refillRate tb))"
    using ne by (rule calculateTokens_Some)
  have L: "calculateLastRefill tb st now = Some (lastRefill st + of_int ?q * ?i)"
    using ne by (rule calculateLastRefill_Some)
  have e0: "0 \<le> ?e" using le by simp
  have q0: "0 \<le> ?q" using e0 pos by simp
  have P: "?e < ?i \<longrightarrow> ?q = 0"
    using floor_div_partial[OF pos e0] by blast
  obtain k :: nat where k: "?q = int k" using q0 by (metis nonneg_int_cases)
  have b1: "of_int ?q * ?i \<le> ?e" and b2: "?e < (of_int ?q + 1) * ?i"
    using floor_div_bracket[OF pos, of ?e] by blast+
  have K: "calculateTokens tb st now = Some (min (capacity tb) (tokens st + of_nat k * refillRate tb))
          \<and> calculateLastRefill tb st now = Some (lastRefill st + of_nat k * ?i)
          \<and> lastRefill st + of_nat k * ?i \<le> now
          \<and> now < lastRefill st + of_nat (k + 1) * ?i"
    using T L b1 b2 unfolding k by (simp add: algebra_simps)
  have E: "\<exists>k::nat.
            calculateTokens tb st now = Some (min (capacity tb) (tokens st + of_nat k * refillRate tb))
          \<and> calculateLastRefill tb st now = Some (lastRefill st + of_nat k * refillInterval tb)
          \<and> lastRefill st + of_nat k * refillInterval tb \<le> now
          \<and> now < lastRefill st + of_nat (k + 1) * refillInterval tb"
    using K by (rule exI)
  have P': "?e < ?i \<longrightarrow>
            calculateTokens tb st now = Some (min (capacity tb) (tokens st))
          \<and> calculateLastRefill tb st now = Some (lastRefill st)"
    using T L P by simp
  from T L P' E show ?thesis by (intro conjI)
qed

text \<open>
  The example bucket with two tokens stored at time 0: after 500 ms (a partial interval)
  nothing is granted; after 2500 ms two whole intervals have passed, two tokens are granted
  and \<open>lastRefill\<close> is 2000.
\<close>

theorem refill_computation_witness:
  "0 < refillInterval example_bucket
   \<and> lastRefill \<lparr>tokens = 2, lastRefill = 0\<rparr> \<le> (500::real)
   \<and> (500::real) - lastRefill \<lparr>tokens = 2, lastRefill = 0\<rparr> < refillInterval example_bucket
   \<and> calculateTokens example_bucket \<lparr>tokens = 2, lastRefill = 0\<rparr> 500 = Some 2
   \<and> calculateLastRefill example_bucket \<lparr>tokens = 2, lastRefill = 0\<rparr> 500 = Some 0
   \<and> calculateTokens example_bucket \<lparr>tokens = 2, lastRefill = 0\<rparr> 2500 = Some 4
   \<and> calculateLastRefill example_bucket \<lparr>tokens = 2, lastRefill = 0\<rparr> 2500 = Some 2000"
  using refill_computation[of example_bucket "\<lparr>tokens = 2, lastRefill = 0\<rparr>" 500]
    refill_computation[of example_bucket "\<lparr>tokens = 2, lastRefill = 0\<rparr>" 2500]
  by (simp add: example_bucket_def)

section \<open>The in-memory store\<close>

text \<open>
  C9. In the in-memory store, a state written with a positive TTL is read back unchanged
  at the same clock reading. A read of a key that is not in the table (in particular any key of a new store) returns nothing and
  leaves the store as it is; a read of an entry whose \<open>expiresAt\<close> is not after the clock
  returns nothing and removes that entry from the table.
\<close>

theorem store_roundtrip:
  "(0 < ttl \<longrightarrow>
      MemoryStorage_get key now (MemoryStorage_set key st ttl now m)
        = (Some st, MemoryStorage_set key st ttl now m))
   \<and> MemoryStorage_get key now MemoryStorage_new = (None, MemoryStorage_new)
   \<and> (store m key = None \<longrightarrow> MemoryStorage_get key now m = (None, m))
   \<and> (store m key = Some e \<and> expiresAt e \<le> now \<longrightarrow>
        MemoryStorage_get key now m = (None, m\<lparr>store := (store m)(key := None)\<rparr>))"
  by (simp add: MemoryStorage_get_def MemoryStorage_set_def MemoryStorage_new_def)

text \<open>
  A state written at time 0 with a TTL of 5000 ms into a new store is read back at time 0,
  and at time 6000 the read returns nothing and the table is empty again.
\<close>

theorem store_roundtrip_witness:
  "(0::real) < 5000
   \<and> store MemoryStorage_new ''key-1'' = None
   \<and> MemoryStorage_get ''key-1'' 0 MemoryStorage_new = (None, MemoryStorage_new)
   \<and> MemoryStorage_get ''key-1'' 0
        (MemoryStorage_set ''key-1'' \<lparr>tokens = 5, lastRefill = 0\<rparr> 5000 0 MemoryStorage_new)
       = (Some \<lparr>tokens = 5, lastRefill = 0\<rparr>,
          MemoryStorage_set ''key-1'' \<lparr>tokens = 5, lastRefill = 0\<rparr> 5000 0 MemoryStorage_new)
   \<and> store (MemoryStorage_set ''key-1'' \<lparr>tokens = 5, lastRefill = 0\<rparr> 5000 0 MemoryStorage_new) ''key-1''
       = Some \<lparr>state = \<lparr>tokens = 5, lastRefill = 0\<rparr>, expiresAt = 5000\<rparr>
   \<and> expiresAt \<lparr>state = \<lparr>tokens = 5, lastRefill = 0\<rparr>, expiresAt = 5000\<rparr> \<le> (6000::real)
   \<and> MemoryStorage_get ''key-1'' 6000
        (MemoryStorage_set ''key-1'' \<lparr>tokens = 5, lastRefill = 0\<rparr> 5000 0 MemoryStorage_new)
       = (None, MemoryStorage_new)"
  using store_roundtrip[where ttl = 5000 and key = "''key-1''" and now = 0
      and st = "\<lparr>tokens = 5, lastRefill = 0\<rparr>" and m = MemoryStorage_new]
    store_roundtrip[where key = "''key-1''" and now = 6000
      and m = "MemoryStorage_set ''key-1'' \<lparr>tokens = 5, lastRefill = 0\<rparr> 5000 0 MemoryStorage_new"
      and e = "\<lparr>state = \<lparr>tokens = 5, lastRefill = 0\<rparr>, expiresAt = 5000\<rparr>"]
  by (simp add: MemoryStorage_set_def MemoryStorage_new_def)

section \<open>Construction\<close>

text \<open>
  C4 (as amended). No configuration is rejected. For every options record, also one whose
  \<open>capacity\<close>, \<open>refillRate\<close> or \<open>refillInterval\<close> is zero or negative, the constructor of
  \<open>TokenBucket\<close> returns a bucket that holds the three values as given, and for every
  configuration the constructor of \<open>RateLimiter\<close> returns a limiter around that bucket,
  owning its storage exactly when none was given.
\<close>

theorem construction_accepts_every_configuration:
  "(\<exists>tb. TokenBucket_new options = Inr tb
         \<and> capacity tb = capacity options
         \<and> refillRate tb = refillRate options
         \<and> refillInterval tb = refillInterval options)
   \<and> (\<exists>tb. TokenBucket_new \<lparr>capacity = capacity config, refillRate = refillRate config,
                 refillInterval = refillInterval config\<rparr> = Inr tb
         \<and> RateLimiter_new config =
             Inr \<lparr>algorithm = tb, ownsStorage = (storage config = None)\<rparr>)"
  by (simp add: TokenBucket_new_def RateLimiter_new_def split: option.splits)

text \<open>
  The claim as stated fails: with \<open>capacity = -5\<close>, \<open>refillRate = -1\<close> and
  \<open>refillInterval = -1000\<close> both constructors return an object; the derived TTL is
  \<open>ceil((-5 / -1) * -1000) * 2 = -10000\<close>.
\<close>

theorem nonpositive_configuration_counterexample:
  "TokenBucket_new \<lparr>capacity = - 5, refillRate = - 1, refillInterval = - 1000\<rparr>
     = Inr \<lparr>capacity = - 5, refillRate = - 1, refillInterval = - 1000, ttlMs = Some (- 10000)\<rparr>
   \<and> RateLimiter_new \<lparr>capacity = - 5, refillRate = - 1, refillInterval = - 1000,
        storage = (None :: MemoryStorage StorageAdapter option)\<rparr>
     = Inr \<lparr>algorithm = \<lparr>capacity = - 5, refillRate = - 1, refillInterval = - 1000,
                          ttlMs = Some (- 10000)\<rparr>,
            ownsStorage = True\<rparr>"
  by (simp add: TokenBucket_new_def RateLimiter_new_def js_div_def)

text \<open>
  C3. The constructor derives the TTL as \<open>ceil((capacity / refillRate) * refillInterval) * 2\<close>,
  with the ceiling around the product, and every write of \<open>consume\<close> carries it. With
  \<open>capacity = 1\<close>, \<open>refillRate = 4\<close>, \<open>refillInterval = 1000\<close> that is 500 ms, where
  \<open>2 \<times> ceil(capacity / refillRate) \<times> refillInterval\<close> is 2000 ms. On the in-memory store
  the bucket emptied by a call at time 0 is still empty at 499 ms (the call is rejected),
  and at 500 ms, before its first refill at 1000 ms, the entry has expired: the call is
  admitted as for a new key. The TTL is shorter than the time to refill the bucket, which
  the comment at the constructor says it covers.
\<close>

theorem ttl_shorter_than_refill_interval:
  "TokenBucket_new \<lparr>capacity = 1, refillRate = 4, refillInterval = 1000\<rparr>
     = Inr \<lparr>capacity = 1, refillRate = 4, refillInterval = 1000, ttlMs = Some 500\<rparr>
   \<and> spec_ttl \<lparr>capacity = 1, refillRate = 4, refillInterval = 1000\<rparr> = 2000
   \<and> run \<lparr>capacity = 1, refillRate = 4, refillInterval = 1000, ttlMs = Some 500\<rparr>
        (recording MemoryStorage_adapter)
        [(0, Consume ''user-1'' None), (499, Consume ''user-1'' None), (500, Consume ''user-1'' None)]
        (MemoryStorage_new, [])
     = Some ([\<lparr>allowed = True, remaining = 0, resetAt = 1000, retryAfter = None\<rparr>,
              \<lparr>allowed = False, remaining = 0, resetAt = 1000, retryAfter = Some 1\<rparr>,
              \<lparr>allowed = True, remaining = 0, resetAt = 1500, retryAfter = None\<rparr>],
             (MemoryStorage_set ''user-1'' \<lparr>tokens = 0, lastRefill = 500\<rparr> 500 500 MemoryStorage_new,
              [GetCall ''user-1'', SetCall ''user-1'' \<lparr>tokens = 0, lastRefill = 0\<rparr> 500,
               GetCall ''user-1'',
               GetCall ''user-1'', SetCall ''user-1'' \<lparr>tokens = 0, lastRefill = 500\<rparr> 500]))"
  by (simp add: evaluate spec_ttl_def)

section \<open>Checking\<close>

text \<open>
  C6. For a bucket with valid options, \<open>check(key)\<close> returns a result and makes one call
  on its storage, the \<open>get\<close>: the storage is left as that read left it and a recording
  adapter logs no \<open>set\<close>. The state it computes with is the one the storage returned, and
  for a key that the storage does not have a full bucket with \<open>lastRefill = now\<close>. With \<open>t\<close>
  the token count that \<open>calculateTokens\<close> gives for that state, the result has
  \<open>allowed = (t \<ge> 1)\<close> and \<open>remaining = floor(t)\<close>; for a key that the storage does not have,
  \<open>t = capacity\<close> and \<open>resetAt = now\<close>. On the in-memory store any number of \<open>check(key)\<close>
  calls in a row at the same clock reading return the result of the first.
\<close>

theorem check_is_read_only:
  assumes v: "valid_options tb"
  shows "(\<exists>r t. calculateTokens tb (fst (getOrCreateState tb ad key now s)) now = Some t
            \<and> check tb ad key now s = Some (r, snd (adapter_get ad key now s))
            \<and> check tb (recording ad) key now (s, lg)
                = Some (r, (snd (adapter_get ad key now s), lg @ [GetCall key]))
            \<and> allowed r = (1 \<le> t) \<and> remaining r = \<lfloor>t\<rfloor>
            \<and> (\<forall>st. fst (adapter_get ad key now s) = Some st \<longrightarrow>
                  fst (getOrCreateState tb ad key now s) = st
                \<and> calculateTokens tb st now = Some t)
            \<and> (fst (adapter_get ad key now s) = None \<longrightarrow>
                  fst (getOrCreateState tb ad key now s) = \<lparr>tokens = capacity tb, lastRefill = now\<rparr>
                \<and> calculateTokens tb \<lparr>tokens = capacity tb, lastRefill = now\<rparr> now = Some t
                \<and> t = capacity tb \<and> resetAt r = now))
       \<and> (\<exists>r m'. check tb MemoryStorage_adapter key now m = Some (r, m')
            \<and> (\<forall>n. run tb MemoryStorage_adapter (replicate (Suc n) (now, Check key)) m
                       = Some (replicate (Suc n) r, m')))"
proof -
  let ?st = "fst (getOrCreateState tb ad key now s)"
  have r: "refillRate tb \<noteq> 0" and i: "refillInterval tb \<noteq> 0" using v by (simp_all add: valid_optionsD)
  obtain t where t: "calculateTokens tb ?st now = Some t"
    using calculateTokens_Some[OF i] by blast
  obtain l where l: "calculateLastRefill tb ?st now = Some l"
    using calculateLastRefill_Some[OF i] by blast
  have t': "calculateTokens tb (fst (getOrCreateState tb (recording ad) key now (s, lg))) now = Some t"
    and l': "calculateLastRefill tb (fst (getOrCreateState tb (recording ad) key now (s, lg))) now = Some l"
    using t l by (simp_all add: getOrCreateState_recording_fst)
  obtain x where x: "check tb ad key now s =
      Some (\<lparr>allowed = (1 \<le> t), remaining = \<lfloor>t\<rfloor>, resetAt = x,
              retryAfter = (if 1 \<le> t then None else Some (calculateRetryAfter tb l now))\<rparr>,
            snd (adapter_get ad key now s))"
    and x1: "calculateResetAt tb t l = Some x"
    using check_Some[OF i r t l] by blast
  obtain y where y: "check tb (recording ad) key now (s, lg) =
      Some (\<lparr>allowed = (1 \<le> t), remaining = \<lfloor>t\<rfloor>, resetAt = y,
              retryAfter = (if 1 \<le> t then None else Some (calculateRetryAfter tb l now))\<rparr>,
            snd (adapter_get (recording ad) key now (s, lg)))"
    and y1: "calculateResetAt tb t l = Some y"
    using check_Some[OF i r t' l'] by blast
  have xy: "x = y" using x1 y1 by simp
  have stored: "\<forall>st. fst (adapter_get ad key now s) = Some st \<longrightarrow>
      ?st = st \<and> calculateTokens tb st now = Some t"
  proof (intro allI impI)
    fix st assume some: "fst (adapter_get ad key now s) = Some st"
    then have st: "?st = st" by (simp add: getOrCreateState_fst)
    with t show "?st = st \<and> calculateTokens tb st now = Some t" by simp
  qed
  have fresh: "fst (adapter_get ad key now s) = None \<longrightarrow>
      ?st = \<lparr>tokens = capacity tb, lastRefill = now\<rparr>
      \<and> calculateTokens tb \<lparr>tokens = capacity tb, lastRefill = now\<rparr> now = Some t
      \<and> t = capacity tb \<and> x = now"
  proof
    assume none: "fst (adapter_get ad key now s) = None"
    then have st: "?st = \<lparr>tokens = capacity tb, lastRefill = now\<rparr>"
      by (simp add: getOrCreateState_fst)
    have tc: "t = capacity tb"
      using t calculateTokens_Some[OF i, of ?st now] by (simp add: st)
    have "l = now"
      using l calculateLastRefill_Some[OF i, of ?st now] by (simp add: st)
    then have "x = now" using x1 tc by (simp add: calculateResetAt_def)
    with st tc t show "?st = \<lparr>tokens = capacity tb, lastRefill = now\<rparr>
      \<and> calculateTokens tb \<lparr>tokens = capacity tb, lastRefill = now\<rparr> now = Some t
      \<and> t = capacity tb \<and> x = now"
      by simp
  qed
  have A: "\<exists>r t. calculateTokens tb ?st now = Some t
            \<and> check tb ad key now s = Some (r, snd (adapter_get ad key now s))
            \<and> check tb (recording ad) key now (s, lg)
                = Some (r, (snd (adapter_get ad key now s), lg @ [GetCall key]))
            \<and> allowed r = (1 \<le> t) \<and> remaining r = \<lfloor>t\<rfloor>
            \<and> (\<forall>st. fst (adapter_get ad key now s) = Some st \<longrightarrow>
                  ?st = st \<and> calculateTokens tb st now = Some t)
            \<and> (fst (adapter_get ad key now s) = None \<longrightarrow>
                  ?st = \<lparr>tokens = capacity tb, lastRefill = now\<rparr>
                \<and> calculateTokens tb \<lparr>tokens = capacity tb, lastRefill = now\<rparr> now = Some t
                \<and> t = capacity tb \<and> resetAt r = now)"
    using t x y xy stored fresh by (simp add: recording_get)
  obtain rm where rm: "check tb MemoryStorage_adapter key now m
       = Some (rm, snd (adapter_get MemoryStorage_adapter key now m))"
    using check_defined[OF v, of MemoryStorage_adapter key now m] by blast
  have rm': "check tb MemoryStorage_adapter key now m = Some (rm, snd (MemoryStorage_get key now m))"
    using rm by (simp add: MemoryStorage_adapter_def)
  have "\<forall>n. run tb MemoryStorage_adapter (replicate (Suc n) (now, Check key)) m
           = Some (replicate (Suc n) rm, snd (MemoryStorage_get key now m))"
    using repeated_check_MemoryStorage[OF rm' refl] by blast
  with rm' have B: "\<exists>r m'. check tb MemoryStorage_adapter key now m = Some (r, m')
            \<and> (\<forall>n. run tb MemoryStorage_adapter (replicate (Suc n) (now, Check key)) m
                       = Some (replicate (Suc n) r, m'))"
    by blast
  from A B show ?thesis by (rule conjI)
qed

text \<open>
  The example bucket. A key stored with two tokens at time 0 and checked at 2500 ms: two
  whole intervals have passed, the count is 4, and three checks in a row agree. A key
  stored with no tokens and checked at 500 ms: not allowed. A new key: a full bucket.
\<close>

theorem check_is_read_only_witness:
  "valid_options example_bucket
   \<and> fst (adapter_get MemoryStorage_adapter ''user-1'' 2500
         (MemoryStorage_set ''user-1'' \<lparr>tokens = 2, lastRefill = 0\<rparr> 10000 0 MemoryStorage_new))
       = Some \<lparr>tokens = 2, lastRefill = 0\<rparr>
   \<and> calculateTokens example_bucket \<lparr>tokens = 2, lastRefill = 0\<rparr> 2500 = Some 4
   \<and> check example_bucket (recording MemoryStorage_adapter) ''user-1'' 2500
        (MemoryStorage_set ''user-1'' \<lparr>tokens = 2, lastRefill = 0\<rparr> 10000 0 MemoryStorage_new, [])
       = Some (\<lparr>allowed = True, remaining = 4, resetAt = 3000, retryAfter = None\<rparr>,
               (MemoryStorage_set ''user-1'' \<lparr>tokens = 2, lastRefill = 0\<rparr> 10000 0 MemoryStorage_new,
                [GetCall ''user-1'']))
   \<and> check example_bucket MemoryStorage_adapter ''user-1'' 500
        (MemoryStorage_set ''user-1'' \<lparr>tokens = 0, lastRefill = 0\<rparr> 10000 0 MemoryStorage_new)
       = Some (\<lparr>allowed = False, remaining = 0, resetAt = 5000, retryAfter = Some 1\<rparr>,
               MemoryStorage_set ''user-1'' \<lparr>tokens = 0, lastRefill = 0\<rparr> 10000 0 MemoryStorage_new)
   \<and> run example_bucket MemoryStorage_adapter
        [(2500, Check ''user-1''), (2500, Check ''user-1''), (2500, Check ''user-1'')]
        (MemoryStorage_set ''user-1'' \<lparr>tokens = 2, lastRefill = 0\<rparr> 10000 0 MemoryStorage_new)
       = Some ([\<lparr>allowed = True, remaining = 4, resetAt = 3000, retryAfter = None\<rparr>,
                \<lparr>allowed = True, remaining = 4, resetAt = 3000, retryAfter = None\<rparr>,
                \<lparr>allowed = True, remaining = 4, resetAt = 3000, retryAfter = None\<rparr>],
               MemoryStorage_set ''user-1'' \<lparr>tokens = 2, lastRefill = 0\<rparr> 10000 0 MemoryStorage_new)
   \<and> fst (adapter_get MemoryStorage_adapter ''user-1'' 0 MemoryStorage_new) = None
   \<and> check example_bucket (recording MemoryStorage_adapter) ''user-1'' 0 (MemoryStorage_new, [])
       = Some (\<lparr>allowed = True, remaining = 5, resetAt = 0, retryAfter = None\<rparr>,
               (MemoryStorage_new, [GetCall ''user-1'']))"
  using check_is_read_only[of example_bucket MemoryStorage_adapter "''user-1''" 2500
      "MemoryStorage_set ''user-1'' \<lparr>tokens = 2, lastRefill = 0\<rparr> 10000 0 MemoryStorage_new" "[]"
      "MemoryStorage_set ''user-1'' \<lparr>tokens = 2, lastRefill = 0\<rparr> 10000 0 MemoryStorage_new"]
    check_is_read_only[of example_bucket MemoryStorage_adapter "''user-1''" 500
      "MemoryStorage_set ''user-1'' \<lparr>tokens = 0, lastRefill = 0\<rparr> 10000 0 MemoryStorage_new" "[]"
      MemoryStorage_new]
    check_is_read_only[of example_bucket MemoryStorage_adapter "''user-1''" 0
      MemoryStorage_new "[]" MemoryStorage_new]
  by (simp add: evaluate)

section \<open>Consuming\<close>

text \<open>
  C2. With \<open>capacity = 5\<close>, \<open>refillRate = 1\<close>, \<open>refillInterval = 1000\<close> (the constructor
  derives a TTL of 10000 ms), the in-memory store and a key that is not in its table, six
  calls \<open>consume(key)\<close> at time 0 return: five times \<open>allowed = true\<close> with \<open>remaining\<close>
  4, 3, 2, 1, 0 and no \<open>retryAfter\<close>, then \<open>allowed = false\<close> with \<open>remaining = 0\<close> and
  \<open>retryAfter = 1\<close>. The store ends with the state of the fifth call.
\<close>

theorem first_six_consumes:
  "store m key = None \<Longrightarrow>
   TokenBucket_new example_options = Inr example_bucket
   \<and> run example_bucket MemoryStorage_adapter
        [(0, Consume key None), (0, Consume key None), (0, Consume key None),
         (0, Consume key None), (0, Consume key None), (0, Consume key None)] m
     = Some ([\<lparr>allowed = True, remaining = 4, resetAt = 1000, retryAfter = None\<rparr>,
              \<lparr>allowed = True, remaining = 3, resetAt = 2000, retryAfter = None\<rparr>,
              \<lparr>allowed = True, remaining = 2, resetAt = 3000, retryAfter = None\<rparr>,
              \<lparr>allowed = True, remaining = 1, resetAt = 4000, retryAfter = None\<rparr>,
              \<lparr>allowed = True, remaining = 0, resetAt = 5000, retryAfter = None\<rparr>,
              \<lparr>allowed = False, remaining = 0, resetAt = 5000, retryAfter = Some 1\<rparr>],
             MemoryStorage_set key \<lparr>tokens = 0, lastRefill = 0\<rparr> 10000 0 m)"
  by (simp add: evaluate)

text \<open>The same on a new store and the key \<open>user-1\<close>.\<close>

theorem first_six_consumes_witness:
  "store MemoryStorage_new ''user-1'' = None
   \<and> map_option (map (\<lambda>r. (allowed r, remaining r, retryAfter r)) \<circ> fst)
        (run example_bucket MemoryStorage_adapter
          [(0, Consume ''user-1'' None), (0, Consume ''user-1'' None), (0, Consume ''user-1'' None),
           (0, Consume ''user-1'' None), (0, Consume ''user-1'' None), (0, Consume ''user-1'' None)]
          MemoryStorage_new)
     = Some [(True, 4, None), (True, 3, None), (True, 2, None), (True, 1, None), (True, 0, None),
             (False, 0, Some 1)]"
  using first_six_consumes[of MemoryStorage_new "''user-1''"]
  by (simp add: MemoryStorage_new_def)

text \<open>
  C5. Let \<open>t\<close> be the token count computed for the loaded (or initial) state. If \<open>t < n\<close>,
  then \<open>consume(key, n)\<close> returns \<open>allowed = false\<close> with \<open>remaining = floor(t)\<close>, and the only
  call it makes on its storage is the one \<open>get\<close>: the storage is left as that read left it,
  and a recording adapter logs no \<open>set\<close>. For the in-memory store that read changes nothing
  that a later read, at the same clock reading or after it, returns for any key.
\<close>

theorem rejected_consume_writes_nothing:
  assumes v: "valid_options tb"
    and t: "calculateTokens tb (fst (getOrCreateState tb ad key now s)) now = Some t"
    and lt: "t < n"
  shows "(\<exists>r. consume tb ad key (Some n) now s = Some (r, snd (adapter_get ad key now s))
            \<and> consume tb (recording ad) key (Some n) now (s, lg)
                = Some (r, (snd (adapter_get ad key now s), lg @ [GetCall key]))
            \<and> allowed r = False \<and> remaining r = \<lfloor>t\<rfloor>)
       \<and> (\<forall>k now'. now \<le> now' \<longrightarrow>
             fst (MemoryStorage_get k now' (snd (MemoryStorage_get key now m)))
               = fst (MemoryStorage_get k now' m))"
proof -
  let ?st = "fst (getOrCreateState tb ad key now s)"
  have r: "refillRate tb \<noteq> 0" and i: "refillInterval tb \<noteq> 0" using v by (simp_all add: valid_optionsD)
  obtain l where l: "calculateLastRefill tb ?st now = Some l"
    using calculateLastRefill_Some[OF i] by blast
  have t': "calculateTokens tb (fst (getOrCreateState tb (recording ad) key now (s, lg))) now = Some t"
    and l': "calculateLastRefill tb (fst (getOrCreateState tb (recording ad) key now (s, lg))) now = Some l"
    using t l by (simp_all add: getOrCreateState_recording_fst)
  obtain x where x: "consume tb ad key (Some n) now s =
      Some (\<lparr>allowed = False, remaining = \<lfloor>t\<rfloor>, resetAt = x,
              retryAfter = Some (calculateRetryAfter tb l now)\<rparr>, snd (adapter_get ad key now s))"
    and x1: "calculateResetAt tb t l = Some x"
    using consume_reject[OF r t l _ lt, of "Some n"] by auto
  obtain y where y: "consume tb (recording ad) key (Some n) now (s, lg) =
      Some (\<lparr>allowed = False, remaining = \<lfloor>t\<rfloor>, resetAt = y,
              retryAfter = Some (calculateRetryAfter tb l now)\<rparr>,
            snd (adapter_get (recording ad) key now (s, lg)))"
    and y1: "calculateResetAt tb t l = Some y"
    using consume_reject[OF r t' l' _ lt, of "Some n"] by auto
  have xy: "x = y" using x1 y1 by simp
  have A: "\<exists>r. consume tb ad key (Some n) now s = Some (r, snd (adapter_get ad key now s))
            \<and> consume tb (recording ad) key (Some n) now (s, lg)
                = Some (r, (snd (adapter_get ad key now s), lg @ [GetCall key]))
            \<and> allowed r = False \<and> remaining r = \<lfloor>t\<rfloor>"
    using x y xy by (simp add: recording_get)
  have B: "\<forall>k now'. now \<le> now' \<longrightarrow>
             fst (MemoryStorage_get k now' (snd (MemoryStorage_get key now m)))
               = fst (MemoryStorage_get k now' m)"
    by (auto simp: MemoryStorage_get_def split: option.splits)
  from A B show ?thesis by blast
qed

text \<open>
  The example bucket, the key stored with no tokens at time 0, and a request for one token
  at time 0: rejected, and the log holds the read only.
\<close>

theorem rejected_consume_writes_nothing_witness:
  "valid_options example_bucket
   \<and> calculateTokens example_bucket
        (fst (getOrCreateState example_bucket MemoryStorage_adapter ''user-1'' 0
               (MemoryStorage_set ''user-1'' \<lparr>tokens = 0, lastRefill = 0\<rparr> 10000 0 MemoryStorage_new))) 0
       = Some 0
   \<and> (0::real) < 1
   \<and> consume example_bucket (recording MemoryStorage_adapter) ''user-1'' (Some 1) 0
        (MemoryStorage_set ''user-1'' \<lparr>tokens = 0, lastRefill = 0\<rparr> 10000 0 MemoryStorage_new, [])
       = Some (\<lparr>allowed = False, remaining = 0, resetAt = 5000, retryAfter = Some 1\<rparr>,
               (MemoryStorage_set ''user-1'' \<lparr>tokens = 0, lastRefill = 0\<rparr> 10000 0 MemoryStorage_new,
                [GetCall ''user-1'']))
   \<and> (0::real) \<le> 0"
  using rejected_consume_writes_nothing[of example_bucket MemoryStorage_adapter "''user-1''" 0
      "MemoryStorage_set ''user-1'' \<lparr>tokens = 0, lastRefill = 0\<rparr> 10000 0 MemoryStorage_new" 0 1 "[]"]
  by (simp add: evaluate)

text \<open>
  C10 (as amended). For a limiter built from valid options, with \<open>t\<close> the token count computed
  for the loaded or initial state, \<open>consume(key, n)\<close> is admitted exactly when \<open>t < n\<close> is
  false. So \<open>consume(key, 0)\<close> is admitted whenever \<open>t \<ge> 0\<close>, also when \<open>t = 0\<close>; and with
  \<open>n < 0\<close> the call is admitted whenever \<open>t \<ge> n\<close> and writes the token count \<open>t - n\<close>,
  which is larger than \<open>t\<close>. The count \<open>t\<close> is not negative for a key that the storage does
  not have, and for every stored state with \<open>tokens \<ge> 0\<close> read at a time not before its
  \<open>lastRefill\<close>.
\<close>

theorem admission_by_comparison:
  assumes v: "valid_options opts" and new: "TokenBucket_new opts = Inr tb"
    and t: "calculateTokens tb (fst (getOrCreateState tb ad key now s)) now = Some t"
  shows "(\<exists>r s'. consume tb ad key (Some n) now s = Some (r, s') \<and> allowed r = (\<not> t < n))
       \<and> (0 \<le> t \<longrightarrow> (\<exists>r s'. consume tb ad key (Some 0) now s = Some (r, s') \<and> allowed r = True))
       \<and> (n < 0 \<and> \<not> t < n \<longrightarrow>
            (\<exists>r s' st' ttl.
               consume tb (recording ad) key (Some n) now (s, lg)
                 = Some (r, (s', lg @ [GetCall key, SetCall key st' ttl]))
               \<and> allowed r = True \<and> tokens st' = t - n \<and> t < tokens st'))
       \<and> (0 \<le> tokens (fst (getOrCreateState tb ad key now s))
            \<and> lastRefill (fst (getOrCreateState tb ad key now s)) \<le> now \<longrightarrow> 0 \<le> t)
       \<and> (fst (adapter_get ad key now s) = None \<longrightarrow> t = capacity tb \<and> 0 \<le> t)"
proof -
  let ?st = "fst (getOrCreateState tb ad key now s)"
  have vb: "valid_options tb" using valid_bucket(1)[OF v new] .
  have r: "refillRate tb \<noteq> 0" and i: "refillInterval tb \<noteq> 0"
    and rpos: "0 < refillRate tb" and ipos: "0 < refillInterval tb" and cpos: "0 < capacity tb"
    using vb by (simp_all add: valid_optionsD)
  obtain ttl where ttl: "ttlMs tb = Some ttl" using valid_bucket(2)[OF v new] by blast
  obtain l where l: "calculateLastRefill tb ?st now = Some l"
    using calculateLastRefill_Some[OF i] by blast
  have teq: "t = min (capacity tb)
      (tokens ?st + of_int \<lfloor>(now - lastRefill ?st) / refillInterval tb\<rfloor> * refillRate tb)"
    using t calculateTokens_Some[OF i, of ?st now] by simp
  have A: "\<exists>r s'. consume tb ad key (Some n) now s = Some (r, s') \<and> allowed r = (\<not> t < n)"
    using consume_allowed[OF r t l _ ttl, of n "Some n"] by simp
  have B: "0 \<le> t \<longrightarrow> (\<exists>r s'. consume tb ad key (Some 0) now s = Some (r, s') \<and> allowed r = True)"
    using consume_allowed[OF r t l _ ttl, of 0 "Some 0"] by auto
  have C: "n < 0 \<and> \<not> t < n \<longrightarrow>
            (\<exists>r s' st' ttl.
               consume tb (recording ad) key (Some n) now (s, lg)
                 = Some (r, (s', lg @ [GetCall key, SetCall key st' ttl]))
               \<and> allowed r = True \<and> tokens st' = t - n \<and> t < tokens st')"
  proof
    assume h: "n < 0 \<and> \<not> t < n"
    obtain res s' where "consume tb (recording ad) key (Some n) now (s, lg) =
           Some (res, (s', lg @ [GetCall key, SetCall key \<lparr>tokens = t - n, lastRefill = l\<rparr> ttl]))"
      and "allowed res = True"
      using consume_recording[OF r t l _ ttl, of n "Some n" lg] h by auto
    moreover have "tokens \<lparr>tokens = t - n, lastRefill = l\<rparr> = t - n"
      and "t < tokens \<lparr>tokens = t - n, lastRefill = l\<rparr>"
      using h by simp_all
    ultimately show "\<exists>r s' st' ttl.
               consume tb (recording ad) key (Some n) now (s, lg)
                 = Some (r, (s', lg @ [GetCall key, SetCall key st' ttl]))
               \<and> allowed r = True \<and> tokens st' = t - n \<and> t < tokens st'"
      by blast
  qed
  have D: "0 \<le> tokens ?st \<and> lastRefill ?st \<le> now \<longrightarrow> 0 \<le> t"
  proof
    assume h: "0 \<le> tokens ?st \<and> lastRefill ?st \<le> now"
    then have "0 \<le> (now - lastRefill ?st) / refillInterval tb" using ipos by simp
    then have "0 \<le> \<lfloor>(now - lastRefill ?st) / refillInterval tb\<rfloor>" by simp
    then have "0 \<le> of_int \<lfloor>(now - lastRefill ?st) / refillInterval tb\<rfloor> * refillRate tb"
      using rpos by simp
    then show "0 \<le> t" using h cpos by (simp add: teq)
  qed
  have E: "fst (adapter_get ad key now s) = None \<longrightarrow> t = capacity tb \<and> 0 \<le> t"
  proof
    assume "fst (adapter_get ad key now s) = None"
    then have "?st = \<lparr>tokens = capacity tb, lastRefill = now\<rparr>"
      by (simp add: getOrCreateState_fst)
    then have "t = capacity tb" using teq by simp
    then show "t = capacity tb \<and> 0 \<le> t" using cpos by simp
  qed
  from A B C D E show ?thesis by (intro conjI)
qed

text \<open>
  The example bucket with no tokens stored at time 0: \<open>consume(key, 0)\<close> at time 0 is
  admitted, and \<open>consume(key, -1)\<close> is admitted and writes one token. For a new key the
  computed count is the capacity.
\<close>

theorem admission_by_comparison_witness:
  "valid_options example_options
   \<and> TokenBucket_new example_options = Inr example_bucket
   \<and> calculateTokens example_bucket
        (fst (getOrCreateState example_bucket MemoryStorage_adapter ''user-1'' 0
               (MemoryStorage_set ''user-1'' \<lparr>tokens = 0, lastRefill = 0\<rparr> 10000 0 MemoryStorage_new))) 0
       = Some 0
   \<and> (0::real) \<le> 0
   \<and> consume example_bucket MemoryStorage_adapter ''user-1'' (Some 0) 0
        (MemoryStorage_set ''user-1'' \<lparr>tokens = 0, lastRefill = 0\<rparr> 10000 0 MemoryStorage_new)
       = Some (\<lparr>allowed = True, remaining = 0, resetAt = 5000, retryAfter = None\<rparr>,
               MemoryStorage_set ''user-1'' \<lparr>tokens = 0, lastRefill = 0\<rparr> 10000 0 MemoryStorage_new)
   \<and> (- 1 :: real) < 0 \<and> \<not> (0::real) < - 1
   \<and> consume example_bucket (recording MemoryStorage_adapter) ''user-1'' (Some (- 1)) 0
        (MemoryStorage_set ''user-1'' \<lparr>tokens = 0, lastRefill = 0\<rparr> 10000 0 MemoryStorage_new, [])
       = Some (\<lparr>allowed = True, remaining = 1, resetAt = 4000, retryAfter = None\<rparr>,
               (MemoryStorage_set ''user-1'' \<lparr>tokens = 1, lastRefill = 0\<rparr> 10000 0 MemoryStorage_new,
                [GetCall ''user-1'', SetCall ''user-1'' \<lparr>tokens = 1, lastRefill = 0\<rparr> 10000]))
   \<and> fst (adapter_get MemoryStorage_adapter ''user-1'' 0 MemoryStorage_new) = None
   \<and> calculateTokens example_bucket
        (fst (getOrCreateState example_bucket MemoryStorage_adapter ''user-1'' 0 MemoryStorage_new)) 0
       = Some 5"
  using admission_by_comparison[of example_options example_bucket MemoryStorage_adapter "''user-1''" 0
      "MemoryStorage_set ''user-1'' \<lparr>tokens = 0, lastRefill = 0\<rparr> 10000 0 MemoryStorage_new" 0 "- 1" "[]"]
    admission_by_comparison[of example_options example_bucket MemoryStorage_adapter "''user-1''" 0
      MemoryStorage_new 5 0 "[]"]
  by (simp add: evaluate)

text \<open>
  The claim as stated fails at a time before the stored \<open>lastRefill\<close>: after
  \<open>consume(key, 5)\<close> at time 1000 has stored no tokens with \<open>lastRefill = 1000\<close>, a call
  \<open>consume(key, 0)\<close> at time 0 computes \<open>floor(-1000 / 1000) = -1\<close> intervals and the count
  \<open>-1\<close>, and is rejected.
\<close>

theorem negative_time_counterexample:
  "TokenBucket_new example_options = Inr example_bucket
   \<and> run example_bucket MemoryStorage_adapter
        [(1000, Consume ''user-1'' (Some 5)), (0, Consume ''user-1'' (Some 0))] MemoryStorage_new
     = Some ([\<lparr>allowed = True, remaining = 0, resetAt = 6000, retryAfter = None\<rparr>,
              \<lparr>allowed = False, remaining = -1, resetAt = 6000, retryAfter = Some 1\<rparr>],
             MemoryStorage_set ''user-1'' \<lparr>tokens = 0, lastRefill = 1000\<rparr> 10000 1000 MemoryStorage_new)"
  by (simp add: evaluate)

text \<open>
  C8 (as amended). For a limiter built from valid options and every sequence of \<open>check\<close> and
  \<open>consume\<close> calls, on any keys and at any clock readings, in which no requested amount is
  negative (a call without an amount requests one token): every call returns, and every
  state that the calls write to the storage has \<open>0 \<le> tokens \<le> capacity\<close>.
\<close>

theorem written_tokens_in_range:
  assumes v: "valid_options opts" and new: "TokenBucket_new opts = Inr tb"
    and nn: "list_all amount_nonneg ops"
  shows "\<exists>rs s' lg. run tb (recording ad) ops (s, []) = Some (rs, (s', lg))
           \<and> list_all (write_in_range (capacity opts)) lg"
proof -
  have "\<exists>r s' calls. step tb (recording ad) c (s, lg) = Some (r, (s', lg @ calls))
           \<and> list_all (write_in_range (capacity opts)) calls" if "amount_nonneg c" for c s lg
    using step_recording_calls[OF v new, of ad c s lg] that by blast
  then show ?thesis
    using run_recording_all[where Q = amount_nonneg and P = "write_in_range (capacity opts)"
        and tb = tb and ad = ad and ops = ops and lg = "[]" and s = s] nn
    by simp
qed

text \<open>
  The example bucket on a new store: \<open>consume(key, 2)\<close>, then \<open>check(key)\<close>; the one write
  stores three tokens.
\<close>

theorem written_tokens_in_range_witness:
  "valid_options example_options
   \<and> TokenBucket_new example_options = Inr example_bucket
   \<and> list_all amount_nonneg [(0, Consume ''user-1'' (Some 2)), (0, Check ''user-1'')]
   \<and> run example_bucket (recording MemoryStorage_adapter)
        [(0, Consume ''user-1'' (Some 2)), (0, Check ''user-1'')] (MemoryStorage_new, [])
     = Some ([\<lparr>allowed = True, remaining = 3, resetAt = 2000, retryAfter = None\<rparr>,
              \<lparr>allowed = True, remaining = 3, resetAt = 2000, retryAfter = None\<rparr>],
             (MemoryStorage_set ''user-1'' \<lparr>tokens = 3, lastRefill = 0\<rparr> 10000 0 MemoryStorage_new,
              [GetCall ''user-1'', SetCall ''user-1'' \<lparr>tokens = 3, lastRefill = 0\<rparr> 10000,
               GetCall ''user-1'']))
   \<and> list_all (write_in_range (capacity example_options))
        [GetCall ''user-1'', SetCall ''user-1'' \<lparr>tokens = 3, lastRefill = 0\<rparr> 10000,
         GetCall ''user-1'']"
  using written_tokens_in_range[of example_options example_bucket
      "[(0, Consume ''user-1'' (Some 2)), (0, Check ''user-1'')]" MemoryStorage_adapter MemoryStorage_new]
  by (simp add: evaluate)

text \<open>
  The claim as stated fails for a negative amount: \<open>consume(key, -1)\<close> on a new key of the
  example bucket is admitted and writes six tokens, one more than the capacity.
\<close>

theorem negative_amount_counterexample:
  "TokenBucket_new example_options = Inr example_bucket
   \<and> run example_bucket (recording MemoryStorage_adapter)
        [(0, Consume ''user-1'' (Some (-1)))] (MemoryStorage_new, [])
     = Some ([\<lparr>allowed = True, remaining = 6, resetAt = 0, retryAfter = None\<rparr>],
             (MemoryStorage_set ''user-1'' \<lparr>tokens = 6, lastRefill = 0\<rparr> 10000 0 MemoryStorage_new,
              [GetCall ''user-1'', SetCall ''user-1'' \<lparr>tokens = 6, lastRefill = 0\<rparr> 10000]))
   \<and> \<not> write_in_range (capacity example_options)
          (SetCall ''user-1'' \<lparr>tokens = 6, lastRefill = 0\<rparr> 10000)"
  by (simp add: evaluate)

end
